theory Spec2Isabelle
  imports Complex_Main "HOL-Library.Log_Nat" "HOL-Library.AList"
begin

section \<open>Floating-point numbers of Python and NumPy\<close>

text \<open>
  \<^verbatim>\<open>lis_netcdf_to_zarr.py\<close> computes the coordinate axes with Python floats (IEEE binary64)
  and stores them as \<^verbatim>\<open>np.float32\<close> (IEEE binary32). A finite float is modelled by the
  rational number it denotes; every operation is the exact operation followed by rounding
  to nearest, ties to even, into the format, and overflows to an infinity. The sign of a
  zero is not modelled.
\<close>

datatype pyfloat = Fin rat | PInf | NInf | NaN

text \<open>Rounding a rational to the nearest integer, ties to the even one.\<close>

definition rne :: "rat \<Rightarrow> int" where
  "rne x = (let f = \<lfloor>x\<rfloor>; d = x - of_int f in
     if d < 1/2 then f else if 1/2 < d then f + 1 else if even f then f else f + 1)"

text \<open>The binary exponent of a positive rational: the \<open>e\<close> with \<open>2^e \<le> x < 2^(e+1)\<close>.\<close>

definition ilog2 :: "rat \<Rightarrow> int" where
  "ilog2 x = (let (a, b) = quotient_of x; e = bitlen a - bitlen b in
     if 2 powi e \<le> x then e else e - 1)"

text \<open>
  Rounding into a binary format of precision \<open>p\<close> with exponents \<open>emin .. emax\<close>: the
  spacing of the format around \<open>x\<close> is \<open>2^(e - p + 1)\<close>, with \<open>e\<close> the exponent of \<open>x\<close> and
  at least \<open>emin\<close> (subnormal numbers). A result beyond the largest finite number is an
  infinity.
\<close>

definition round_float :: "nat \<Rightarrow> int \<Rightarrow> int \<Rightarrow> rat \<Rightarrow> pyfloat" where
  "round_float p emin emax x =
     (if x = 0 then Fin 0
      else let e = max (ilog2 \<bar>x\<bar>) emin;
               q = 2 powi (e - int p + 1);
               r = of_int (rne (x / q)) * q
           in if r \<noteq> 0 \<and> emax < ilog2 \<bar>r\<bar> then (if 0 < x then PInf else NInf) else Fin r)"

definition rnd64 :: "rat \<Rightarrow> pyfloat" where
  "rnd64 = round_float 53 (- 1022) 1023"

definition rnd32 :: "rat \<Rightarrow> pyfloat" where
  "rnd32 = round_float 24 (- 126) 127"

text \<open>Binary64 arithmetic, as Python floats and NumPy \<^verbatim>\<open>float64\<close> scalars do it.\<close>

fun fneg :: "pyfloat \<Rightarrow> pyfloat" where
  "fneg (Fin x) = Fin (- x)"
| "fneg PInf = NInf"
| "fneg NInf = PInf"
| "fneg NaN = NaN"

fun fadd :: "pyfloat \<Rightarrow> pyfloat \<Rightarrow> pyfloat" where
  "fadd (Fin x) (Fin y) = rnd64 (x + y)"
| "fadd NaN b = NaN"
| "fadd a NaN = NaN"
| "fadd PInf NInf = NaN"
| "fadd NInf PInf = NaN"
| "fadd PInf b = PInf"
| "fadd a PInf = PInf"
| "fadd NInf b = NInf"
| "fadd a NInf = NInf"

definition fsub :: "pyfloat \<Rightarrow> pyfloat \<Rightarrow> pyfloat" where
  "fsub a b = fadd a (fneg b)"

text \<open>The sign of a float that is not a NaN: \<open>1\<close>, \<open>0\<close> or \<open>- 1\<close>.\<close>

fun fsgn :: "pyfloat \<Rightarrow> int" where
  "fsgn (Fin x) = (if 0 < x then 1 else if x < 0 then - 1 else 0)"
| "fsgn PInf = 1"
| "fsgn NInf = - 1"
| "fsgn NaN = 0"

definition signed_inf :: "int \<Rightarrow> pyfloat" where
  "signed_inf s = (if s = 0 then NaN else if 0 < s then PInf else NInf)"

fun fmul :: "pyfloat \<Rightarrow> pyfloat \<Rightarrow> pyfloat" where
  "fmul (Fin x) (Fin y) = rnd64 (x * y)"
| "fmul NaN b = NaN"
| "fmul a NaN = NaN"
| "fmul a b = signed_inf (fsgn a * fsgn b)"

text \<open>
  Division of NumPy scalars: a finite number over zero is an infinity (with a warning, not
  an exception), zero over zero and infinity over infinity are NaN.
\<close>

fun fdiv :: "pyfloat \<Rightarrow> pyfloat \<Rightarrow> pyfloat" where
  "fdiv (Fin x) (Fin y) = (if y = 0 then signed_inf (fsgn (Fin x)) else rnd64 (x / y))"
| "fdiv NaN b = NaN"
| "fdiv a NaN = NaN"
| "fdiv (Fin x) b = Fin 0"
| "fdiv a (Fin y) = (if y < 0 then fneg a else a)"
| "fdiv a b = NaN"

text \<open>An integer count converted to a float (\<^verbatim>\<open>dy * ns_len\<close>, \<^verbatim>\<open>np.arange\<close>).\<close>

definition of_count :: "nat \<Rightarrow> pyfloat" where
  "of_count n = rnd64 (of_nat n)"

text \<open>\<^verbatim>\<open>y.astype(np.float32)\<close>\<close>

fun to_float32 :: "pyfloat \<Rightarrow> pyfloat" where
  "to_float32 (Fin x) = rnd32 x"
| "to_float32 a = a"

text \<open>
  Python's \<^verbatim>\<open>round(x, ndigits)\<close> on a float, for \<open>ndigits \<ge> 0\<close>: the exact value of \<open>x\<close> is
  rounded to \<open>ndigits\<close> decimal places, ties to even, and the decimal is converted back to
  the nearest float. Beyond 323 digits, and on infinities and NaN, \<open>x\<close> is returned as it is.
\<close>

definition py_round :: "pyfloat \<Rightarrow> nat \<Rightarrow> pyfloat" where
  "py_round x ndigits =
     (case x of
        Fin v \<Rightarrow> (if 323 < ndigits then x
                  else rnd64 (of_int (rne (v * 10 ^ ndigits)) / 10 ^ ndigits))
      | _ \<Rightarrow> x)"

subsection \<open>\<^verbatim>\<open>np.linspace(start, stop, num, dtype=np.float32, endpoint=False)\<close>\<close>

text \<open>
  NumPy computes \<^verbatim>\<open>delta = stop - start\<close>, \<^verbatim>\<open>y = arange(0, num)\<close>, and for \<^verbatim>\<open>num > 0\<close> the
  step \<^verbatim>\<open>delta / num\<close>; then \<^verbatim>\<open>y = y * step\<close> (or \<^verbatim>\<open>y = (y / num) * delta\<close> when the step is
  zero), \<^verbatim>\<open>y += start\<close>, all in binary64, and last \<^verbatim>\<open>y.astype(float32)\<close>. With
  \<^verbatim>\<open>endpoint=False\<close> no element is overwritten by \<^verbatim>\<open>stop\<close>.
\<close>

definition linspace_elem :: "pyfloat \<Rightarrow> pyfloat \<Rightarrow> nat \<Rightarrow> nat \<Rightarrow> pyfloat" where
  "linspace_elem start stop num i =
     (let delta = fsub stop start;
          v = of_count i;
          y = (if 0 < num then
                 (let step = fdiv delta (of_count num) in
                  if step = Fin 0 then fmul (fdiv v (of_count num)) delta
                  else fmul v step)
               else fmul v delta)
      in to_float32 (fadd y start))"

definition np_linspace :: "pyfloat \<Rightarrow> pyfloat \<Rightarrow> nat \<Rightarrow> pyfloat list" where
  "np_linspace start stop num = map (linspace_elem start stop num) [0..<num]"

section \<open>Datasets of xarray\<close>

text \<open>
  The exceptions the preprocessing function can raise. A Python \<^verbatim>\<open>dict\<close> is an association
  list with distinct keys, in insertion order.
\<close>

datatype error =
    KeyError string
  | ValueError string
  | TypeError string
  | AttributeError string

type_synonym 'v dict = "(string \<times> 'v) list"

definition bind_error :: "error + 'a \<Rightarrow> ('a \<Rightarrow> error + 'b) \<Rightarrow> error + 'b" where
  "bind_error r f = (case r of Inl e \<Rightarrow> Inl e | Inr x \<Rightarrow> f x)"

definition dict_get :: "string dict \<Rightarrow> string \<Rightarrow> string" where
  \<comment> \<open>\<^verbatim>\<open>name_dict.get(k, k)\<close>\<close>
  "dict_get d k = (case map_of d k of None \<Rightarrow> k | Some v \<Rightarrow> v)"

definition dict_of_items :: "(string \<times> 'v) list \<Rightarrow> 'v dict" where
  \<comment> \<open>a dict comprehension: a key met again keeps its place and takes the later value\<close>
  "dict_of_items xs = fold (\<lambda>(k, v). AList.update k v) xs []"

text \<open>
  The value of an attribute of a NetCDF file as xarray hands it over. \<open>Num x\<close> is any value
  that \<^verbatim>\<open>float()\<close> converts, with \<open>x\<close> the float it gives (a NumPy or Python number, or text
  holding a numeral); \<open>Text s\<close> is text that \<^verbatim>\<open>float()\<close> rejects with \<^verbatim>\<open>ValueError\<close>; \<open>Arr xs\<close>
  is an array attribute, which \<^verbatim>\<open>float()\<close> converts only when it has one element.
\<close>

datatype attr_value = Num pyfloat | Text string | Arr "pyfloat list"

fun py_float :: "attr_value \<Rightarrow> error + pyfloat" where
  "py_float (Num x) = Inr x"
| "py_float (Text s) = Inl (ValueError ''could not convert string to float'')"
| "py_float (Arr [x]) = Inr x"
| "py_float (Arr xs) = Inl (TypeError ''only length-1 arrays can be converted to Python scalars'')"

record variable =
  vdims :: "string list"
  vshape :: "nat list"
  vdata :: "pyfloat list"
  vattrs :: "attr_value dict"

record dataset =
  attrs :: "attr_value dict"
  dims :: "nat dict"
  variables :: "variable dict"
  coord_names :: "string list"

definition getitem :: "'v dict \<Rightarrow> string \<Rightarrow> error + 'v" where
  \<comment> \<open>\<^verbatim>\<open>d[k]\<close> on a dict\<close>
  "getitem d k = (case map_of d k of None \<Rightarrow> Inl (KeyError k) | Some v \<Rightarrow> Inr v)"

text \<open>
  \<^verbatim>\<open>len(ds[name])\<close>: \<^verbatim>\<open>ds[name]\<close> is the variable of that name or, for a dimension without a
  variable, the index \<open>0 .. size - 1\<close> along it, and \<^verbatim>\<open>KeyError\<close> otherwise; its \<^verbatim>\<open>len\<close> is the
  length of its first axis, and \<^verbatim>\<open>TypeError\<close> for a scalar variable.
\<close>

definition py_len :: "dataset \<Rightarrow> string \<Rightarrow> error + nat" where
  "py_len ds name =
     (case map_of (variables ds) name of
        Some v \<Rightarrow> (case vshape v of [] \<Rightarrow> Inl (TypeError ''len() of unsized object'')
                                  | n # ns \<Rightarrow> Inr n)
      | None \<Rightarrow> (case map_of (dims ds) name of
                   Some n \<Rightarrow> Inr n
                 | None \<Rightarrow> Inl (KeyError name)))"

text \<open>
  \<^verbatim>\<open>Dataset.rename(name_dict)\<close>: every key must name a variable or a dimension; variables,
  the dimensions of every variable, the dimension sizes and the coordinate names are
  renamed; \<^verbatim>\<open>ValueError\<close> when two variables end up under one name. The result is a new
  dataset; the data of the variables is not touched.
\<close>

definition rename_var :: "string dict \<Rightarrow> string \<times> variable \<Rightarrow> string \<times> variable" where
  "rename_var name_dict kv =
     (dict_get name_dict (fst kv), (snd kv)\<lparr>vdims := map (dict_get name_dict) (vdims (snd kv))\<rparr>)"

definition rename :: "dataset \<Rightarrow> string dict \<Rightarrow> error + dataset" where
  "rename ds name_dict =
     (case filter (\<lambda>k. map_of (variables ds) k = None \<and> map_of (dims ds) k = None)
             (map fst name_dict) of
        k # ks \<Rightarrow> Inl (ValueError (''cannot rename '' @ k))
      | [] \<Rightarrow>
         (let vs = map (rename_var name_dict) (variables ds) in
          if \<not> distinct (map fst vs) then Inl (ValueError ''the new name conflicts'')
          else Inr (ds\<lparr>variables := vs,
                 dims := dict_of_items (map (\<lambda>(k, n). (dict_get name_dict k, n)) (dims ds)),
                 coord_names := map (dict_get name_dict)
                   (filter (\<lambda>k. k \<in> set (coord_names ds)) (map fst (variables ds)))\<rparr>)))"

text \<open>
  \<^verbatim>\<open>Dataset.assign_coords(coords)\<close> with one-dimensional arrays: the array under the key \<open>k\<close>
  becomes the variable \<open>k\<close> along the dimension \<open>k\<close>, replacing a variable of that name, and
  \<open>k\<close> becomes a coordinate name. xarray raises \<^verbatim>\<open>ValueError\<close> on conflicting sizes for a
  dimension.
\<close>

definition assign_coord :: "dataset \<Rightarrow> string \<times> pyfloat list \<Rightarrow> error + dataset" where
  "assign_coord ds kv =
     (let k = fst kv; n = length (snd kv);
          v = \<lparr>vdims = [k], vshape = [n], vdata = snd kv, vattrs = []\<rparr>
      in case map_of (dims ds) k of
           Some m \<Rightarrow>
             (if m \<noteq> n then Inl (ValueError (''conflicting sizes for dimension '' @ k))
              else Inr (ds\<lparr>variables := AList.update k v (variables ds),
                          coord_names := List.insert k (coord_names ds)\<rparr>))
         | None \<Rightarrow>
             Inr (ds\<lparr>variables := AList.update k v (variables ds),
                     dims := AList.update k n (dims ds),
                     coord_names := List.insert k (coord_names ds)\<rparr>))"

fun assign_coords :: "dataset \<Rightarrow> (string \<times> pyfloat list) list \<Rightarrow> error + dataset" where
  "assign_coords ds [] = Inr ds"
| "assign_coords ds (kv # kvs) = bind_error (assign_coord ds kv) (\<lambda>ds'. assign_coords ds' kvs)"

text \<open>
  \<^verbatim>\<open>ds.tgt.attrs = ds.src.attrs\<close>: attribute access finds a variable by its name
  (\<^verbatim>\<open>AttributeError\<close> otherwise); the target variable gets a copy of the attributes.
\<close>

definition getattr :: "dataset \<Rightarrow> string \<Rightarrow> error + variable" where
  "getattr ds name =
     (case map_of (variables ds) name of
        None \<Rightarrow> Inl (AttributeError name)
      | Some v \<Rightarrow> Inr v)"

definition copy_attrs :: "dataset \<Rightarrow> string \<Rightarrow> string \<Rightarrow> error + dataset" where
  "copy_attrs ds tgt src =
     bind_error (getattr ds tgt) (\<lambda>t.
     bind_error (getattr ds src) (\<lambda>s.
       Inr (ds\<lparr>variables := AList.update tgt (t\<lparr>vattrs := vattrs s\<rparr>) (variables ds)\<rparr>)))"

section \<open>The preprocessing function\<close>

definition float_attr :: "attr_value dict \<Rightarrow> string \<Rightarrow> error + pyfloat" where
  \<comment> \<open>\<^verbatim>\<open>float(attrs[k])\<close>\<close>
  "float_attr a k = bind_error (getitem a k) py_float"

definition add_latlon_coords :: "dataset \<Rightarrow> error + dataset" where
  "add_latlon_coords ds =
     (let a = attrs ds in
      bind_error (float_attr a ''DX'') (\<lambda>dx0. let dx = py_round dx0 3 in
      bind_error (float_attr a ''DY'') (\<lambda>dy0. let dy = py_round dy0 3 in
      bind_error (py_len ds ''east_west'') (\<lambda>ew_len.
      bind_error (py_len ds ''north_south'') (\<lambda>ns_len.
      bind_error (float_attr a ''SOUTH_WEST_CORNER_LAT'') (\<lambda>lat0. let ll_lat = py_round lat0 3 in
      bind_error (float_attr a ''SOUTH_WEST_CORNER_LON'') (\<lambda>lon0. let ll_lon = py_round lon0 3 in
      let ur_lat = fadd ll_lat (fmul dy (of_count ns_len));
          ur_lon = fadd ll_lon (fmul dx (of_count ew_len));
          coords = [(''lat'', np_linspace ll_lat ur_lat ns_len),
                    (''lon'', np_linspace ll_lon ur_lon ew_len)]
      in
      bind_error (rename ds [(''lon'', ''orig_lon''), (''lat'', ''orig_lat'')]) (\<lambda>ds1.
      bind_error (rename ds1 [(''north_south'', ''lat''), (''east_west'', ''lon'')]) (\<lambda>ds2.
      bind_error (assign_coords ds2 coords) (\<lambda>ds3.
      bind_error (copy_attrs ds3 ''lon'' ''orig_lon'') (\<lambda>ds4.
      copy_attrs ds4 ''lat'' ''orig_lat'')))))))))))"

subsection \<open>Reading the result\<close>

text \<open>\<^verbatim>\<open>ds[name].values\<close>, and one element of it when the run succeeded.\<close>

definition values_of :: "dataset \<Rightarrow> string \<Rightarrow> pyfloat list option" where
  "values_of ds name = map_option vdata (map_of (variables ds) name)"

definition axis_at :: "error + dataset \<Rightarrow> string \<Rightarrow> nat \<Rightarrow> pyfloat option" where
  "axis_at r name i =
     (case r of
        Inl e \<Rightarrow> None
      | Inr ds \<Rightarrow> (case values_of ds name of
                    None \<Rightarrow> None
                  | Some xs \<Rightarrow> if i < length xs then Some (xs ! i) else None))"


text \<open>
  A frame as the Land Information System writes it: the index dimensions \<open>north_south\<close> and
  \<open>east_west\<close>, whose lengths \<^verbatim>\<open>len(ds[...])\<close> reads, the variables \<open>lat\<close> and \<open>lon\<close>, and
  nothing yet under the names \<open>orig_lat\<close> and \<open>orig_lon\<close>; names are not repeated.
\<close>

definition lis_frame :: "dataset \<Rightarrow> bool" where
  "lis_frame ds =
     (distinct (map fst (variables ds)) \<and> distinct (map fst (dims ds)) \<and>
      ''lat'' \<in> set (map fst (variables ds)) \<and> ''lon'' \<in> set (map fst (variables ds)) \<and>
      ''orig_lat'' \<notin> set (map fst (variables ds)) \<and>
      ''orig_lon'' \<notin> set (map fst (variables ds)) \<and>
      ''orig_lat'' \<notin> set (map fst (dims ds)) \<and> ''orig_lon'' \<notin> set (map fst (dims ds)) \<and>
      (case map_of (dims ds) ''north_south'' of
         None \<Rightarrow> False | Some n \<Rightarrow> py_len ds ''north_south'' = Inr n) \<and>
      (case map_of (dims ds) ''east_west'' of
         None \<Rightarrow> False | Some n \<Rightarrow> py_len ds ''east_west'' = Inr n))"

text \<open>The four scalars of the grid description, and when \<^verbatim>\<open>float()\<close> accepts a value.\<close>

definition grid_keys :: "string list" where
  "grid_keys = [''DX'', ''DY'', ''SOUTH_WEST_CORNER_LAT'', ''SOUTH_WEST_CORNER_LON'']"



text \<open>Values that binary32 and binary64 hold exactly when small: the multiples of \<open>1/8\<close>.\<close>

definition eighths :: "rat \<Rightarrow> bool" where
  "eighths x = (of_int \<lfloor>x * 8\<rfloor> = x * 8)"

abbreviation nd1 :: "string dict" where
  "nd1 \<equiv> [(''lon'', ''orig_lon''), (''lat'', ''orig_lat'')]"

abbreviation nd2 :: "string dict" where
  "nd2 \<equiv> [(''north_south'', ''lat''), (''east_west'', ''lon'')]"

section \<open>The chunk planner\<close>

text \<open>
  Modelled from the spec: the grouping of the input files into chunks is done by
  \<^verbatim>\<open>pattern_from_file_sequence\<close> and \<^verbatim>\<open>XarrayZarrRecipe.iter_chunks\<close> of the library
  \<^verbatim>\<open>pangeo_forge_recipes\<close>, which the script only calls. The spec has it partition the
  ordered inputs into consecutive groups of \<open>inputs_per_chunk\<close> files, the last one
  possibly shorter. The spec requires \<open>inputs_per_chunk\<close> positive; for \<open>0\<close> the model
  plans no chunk.
\<close>

function chunk_plan :: "nat \<Rightarrow> 'a list \<Rightarrow> 'a list list" where
  "chunk_plan k xs = (if k = 0 \<or> xs = [] then [] else take k xs # chunk_plan k (drop k xs))"
  by pat_completeness auto
termination
  by (relation "measure (\<lambda>(k, xs). length xs)") auto

text \<open>
  Modelled from the spec: the offset of a group into the logical concatenated time axis is
  the number of records that the groups before it hold, \<open>items_per_file\<close> records a file.
\<close>

definition chunk_offset :: "nat \<Rightarrow> 'a list list \<Rightarrow> nat \<Rightarrow> nat" where
  "chunk_offset items_per_file groups j = sum_list (map length (take j groups)) * items_per_file"

definition chunk_records :: "nat \<Rightarrow> 'a list list \<Rightarrow> nat \<Rightarrow> nat" where
  "chunk_records items_per_file groups j = length (groups ! j) * items_per_file"

section \<open>The script\<close>




record file_pattern =
  file_list :: "string list"
  concat_dim :: string
  items_per_file :: nat














section \<open>Example inputs\<close>




text \<open>
  A frame of two rows and three columns whose \<open>lat\<close> and \<open>lon\<close> fields are masked in places,
  with a grid of a quarter of a degree.
\<close>

definition masked_field :: "string \<Rightarrow> pyfloat list \<Rightarrow> variable" where
  "masked_field units xs =
     \<lparr>vdims = [''north_south'', ''east_west''], vshape = [2, 3], vdata = xs,
      vattrs = [(''units'', Text units)]\<rparr>"

definition quarter_degree :: "attr_value dict" where
  "quarter_degree =
     [(''DX'', Num (Fin (1 / 4))), (''DY'', Num (Fin (1 / 4))),
      (''SOUTH_WEST_CORNER_LAT'', Num (Fin (- (479 / 8)))),
      (''SOUTH_WEST_CORNER_LON'', Num (Fin (- (1439 / 8)))),
      (''MAP_PROJECTION'', Text ''EQUIDISTANT CYLINDRICAL'')]"

definition small_frame :: dataset where
  "small_frame =
     \<lparr>attrs = quarter_degree,
      dims = [(''north_south'', 2), (''east_west'', 3)],
      variables =
        [(''lat'', masked_field ''degrees_north'' [NaN, Fin (- (479 / 8)), Fin (- (479 / 8)),
                                                 Fin (- (477 / 8)), NaN, Fin (- (477 / 8))]),
         (''lon'', masked_field ''degrees_east'' [NaN, Fin (- (1437 / 8)), Fin (- (1435 / 8)),
                                                Fin (- (1439 / 8)), NaN, Fin (- (1435 / 8))])],
      coord_names = []\<rparr>"

text \<open>What the preprocessing function makes of it.\<close>

definition small_result :: dataset where
  "small_result =
     \<lparr>attrs = quarter_degree,
      dims = [(''lat'', 2), (''lon'', 3)],
      variables =
        [(''orig_lat'', \<lparr>vdims = [''lat'', ''lon''], vshape = [2, 3],
            vdata = [NaN, Fin (- (479 / 8)), Fin (- (479 / 8)),
                     Fin (- (477 / 8)), NaN, Fin (- (477 / 8))],
            vattrs = [(''units'', Text ''degrees_north'')]\<rparr>),
         (''orig_lon'', \<lparr>vdims = [''lat'', ''lon''], vshape = [2, 3],
            vdata = [NaN, Fin (- (1437 / 8)), Fin (- (1435 / 8)),
                     Fin (- (1439 / 8)), NaN, Fin (- (1435 / 8))],
            vattrs = [(''units'', Text ''degrees_east'')]\<rparr>),
         (''lat'', \<lparr>vdims = [''lat''], vshape = [2],
            vdata = [Fin (- (479 / 8)), Fin (- (477 / 8))],
            vattrs = [(''units'', Text ''degrees_north'')]\<rparr>),
         (''lon'', \<lparr>vdims = [''lon''], vshape = [3],
            vdata = [Fin (- (1439 / 8)), Fin (- (1437 / 8)), Fin (- (1435 / 8))],
            vattrs = [(''units'', Text ''degrees_east'')]\<rparr>)],
      coord_names = [''lon'', ''lat'']\<rparr>"


definition masked_frame :: dataset where
  "masked_frame =
     small_frame\<lparr>variables :=
       [(''lat'', masked_field ''degrees_north'' [NaN, NaN, NaN, NaN, NaN, NaN]),
        (''lon'', masked_field ''degrees_east'' [NaN, NaN, NaN, NaN, NaN, NaN])]\<rparr>"

definition masked_result :: dataset where
  "masked_result =
     small_result\<lparr>variables :=
       [(''orig_lat'', \<lparr>vdims = [''lat'', ''lon''], vshape = [2, 3],
            vdata = [NaN, NaN, NaN, NaN, NaN, NaN],
            vattrs = [(''units'', Text ''degrees_north'')]\<rparr>),
        (''orig_lon'', \<lparr>vdims = [''lat'', ''lon''], vshape = [2, 3],
            vdata = [NaN, NaN, NaN, NaN, NaN, NaN],
            vattrs = [(''units'', Text ''degrees_east'')]\<rparr>),
        (''lat'', \<lparr>vdims = [''lat''], vshape = [2],
            vdata = [Fin (- (479 / 8)), Fin (- (477 / 8))],
            vattrs = [(''units'', Text ''degrees_north'')]\<rparr>),
        (''lon'', \<lparr>vdims = [''lon''], vshape = [3],
            vdata = [Fin (- (1439 / 8)), Fin (- (1437 / 8)), Fin (- (1435 / 8))],
            vattrs = [(''units'', Text ''degrees_east'')]\<rparr>)]\<rparr>"



text \<open>A global frame of 600 rows and 1440 columns, every cell of \<open>lat\<close> and \<open>lon\<close> masked.\<close>

definition all_masked :: "pyfloat list" where
  "all_masked = replicate (600 * 1440) NaN"

definition global_frame :: dataset where
  "global_frame =
     \<lparr>attrs = quarter_degree,
      dims = [(''north_south'', 600), (''east_west'', 1440)],
      variables =
        [(''lat'', \<lparr>vdims = [''north_south'', ''east_west''], vshape = [600, 1440],
                    vdata = all_masked, vattrs = []\<rparr>),
         (''lon'', \<lparr>vdims = [''north_south'', ''east_west''], vshape = [600, 1440],
                    vdata = all_masked, vattrs = []\<rparr>)],
      coord_names = []\<rparr>"
section \<open>Properties of the floating-point model and of the dataset operations\<close>

lemma rne_of_int: "rne (of_int m) = m"
  by (simp add: rne_def)

lemma quotient_of_pos:
  assumes "0 < x" "quotient_of x = (a, b)"
  shows "0 < a" "0 < b" "x = of_int a / of_int b"
proof -
  show b: "0 < b" using assms(2) quotient_of_denom_pos by blast
  show x: "x = of_int a / of_int b" using assms(2) quotient_of_div by blast
  show "0 < a" using assms(1) b x by (simp add: zero_less_divide_iff)
qed

lemma powi_mono: "a \<le> b \<Longrightarrow> (2::rat) powi a \<le> 2 powi b"
  by (rule power_int_increasing) simp_all

lemma powi_less_cancel: "(2::rat) powi a < 2 powi b \<Longrightarrow> a < b"
  using powi_mono [of b a] by (cases "a < b") auto

lemma ilog2_bounds:
  assumes "0 < x"
  shows "2 powi (ilog2 x) \<le> x" and "x < 2 powi (ilog2 x + 1)"
proof -
  obtain a b where q: "quotient_of x = (a, b)" by (cases "quotient_of x")
  note ab = quotient_of_pos [OF assms q]
  define la where "la = bitlen a"
  define lb where "lb = bitlen b"
  have la: "2 ^ nat (la - 1) \<le> a" "a < 2 ^ nat la" and la1: "1 \<le> la"
    using bitlen_bounds [OF ab(1)] ab(1) by (auto simp: la_def bitlen_alt_def)
  have lb: "2 ^ nat (lb - 1) \<le> b" "b < 2 ^ nat lb" and lb1: "1 \<le> lb"
    using bitlen_bounds [OF ab(2)] ab(2) by (auto simp: lb_def bitlen_alt_def)
  have ra: "(2::rat) powi (la - 1) \<le> of_int a" "of_int a < (2::rat) powi la"
    using la la1 by (simp_all add: power_int_def)
  have rb: "(2::rat) powi (lb - 1) \<le> of_int b" "of_int b < (2::rat) powi lb"
    using lb lb1 by (simp_all add: power_int_def)
  have bpos: "(0::rat) < of_int b" using ab(2) by simp
  have up: "x < 2 powi (la - lb + 1)"
  proof -
    have "of_int a < (2::rat) powi la" by (rule ra)
    also have "\<dots> = 2 powi (la - lb + 1) * 2 powi (lb - 1)"
      by (simp add: power_int_add [symmetric])
    also have "\<dots> \<le> 2 powi (la - lb + 1) * of_int b"
      by (rule mult_left_mono [OF rb(1)]) simp
    finally show ?thesis using bpos by (simp add: ab(3) pos_divide_less_eq)
  qed
  have lo: "2 powi (la - lb - 1) \<le> x"
  proof -
    have "(2::rat) powi (la - lb - 1) * of_int b \<le> 2 powi (la - lb - 1) * 2 powi lb"
      by (rule mult_left_mono) (use rb(2) in simp_all)
    also have "\<dots> = 2 powi (la - 1)"
      by (simp add: power_int_add [symmetric])
    also have "\<dots> \<le> of_int a" by (rule ra)
    finally show ?thesis using bpos by (simp add: ab(3) pos_le_divide_eq)
  qed
  show "2 powi (ilog2 x) \<le> x"
    using lo by (simp add: ilog2_def q la_def lb_def Let_def)
  show "x < 2 powi (ilog2 x + 1)"
    using up by (auto simp: ilog2_def q la_def lb_def Let_def not_le)
qed

lemma ilog2_less:
  assumes "0 < x" "x < 2 powi k"
  shows "ilog2 x < k"
  using ilog2_bounds(1) [OF assms(1)] assms(2) powi_less_cancel [of "ilog2 x" k] by simp

lemma round_float_exact:
  assumes m: "\<bar>m\<bar> < 2 ^ p" and j: "emin - int p + 1 \<le> j" "j + int p - 1 \<le> emax"
    and x: "x = of_int m * 2 powi j"
  shows "round_float p emin emax x = Fin x"
proof (cases "x = 0")
  case True
  then show ?thesis by (simp add: round_float_def)
next
  case False
  then have ax: "0 < \<bar>x\<bar>" by simp
  have "\<bar>x\<bar> = of_int \<bar>m\<bar> * 2 powi j" by (simp add: x abs_mult)
  also have "\<dots> < 2 ^ p * 2 powi j"
  proof (rule mult_strict_right_mono)
    have "(of_int \<bar>m\<bar> :: rat) < of_int (2 ^ p)" using m by (simp only: of_int_less_iff)
    then show "(of_int \<bar>m\<bar> :: rat) < 2 ^ p" by simp
  qed simp
  also have "\<dots> = 2 powi (int p + j)" by (simp add: power_int_add)
  finally have lt: "\<bar>x\<bar> < 2 powi (int p + j)" .
  have e1: "ilog2 \<bar>x\<bar> < int p + j" by (rule ilog2_less [OF ax lt])
  define e where "e = max (ilog2 \<bar>x\<bar>) emin"
  define k where "k = j - (e - int p + 1)"
  have k: "0 \<le> k" using e1 j by (simp add: e_def k_def)
  have "x / 2 powi (e - int p + 1) = of_int m * 2 powi k"
    by (simp add: x k_def power_int_diff)
  also have "\<dots> = of_int (m * 2 ^ nat k)" using k by (simp add: power_int_def)
  finally have xq: "x / 2 powi (e - int p + 1) = of_int (m * 2 ^ nat k)" .
  have r: "of_int (rne (x / 2 powi (e - int p + 1))) * 2 powi (e - int p + 1) = x"
    unfolding xq rne_of_int using xq [symmetric] by simp
  have "ilog2 \<bar>x\<bar> \<le> emax" using e1 j by simp
  then show ?thesis
    using False r by (simp add: round_float_def Let_def e_def [symmetric])
qed

lemma eighths_rnd64:
  assumes "x = of_int m / 8" "\<bar>x\<bar> < 2 ^ 21"
  shows "rnd64 x = Fin x"
proof -
  have "\<bar>of_int m :: rat\<bar> < 2 ^ 24" using assms by simp
  then have "\<bar>m\<bar> < 2 ^ 24"
    by (metis of_int_abs of_int_less_iff of_int_numeral of_int_power)
  then have m: "\<bar>m\<bar> < 2 ^ 53" by simp
  show ?thesis unfolding rnd64_def
    by (rule round_float_exact [OF m, where j = "- 3"]) (simp_all add: assms power_int_def field_simps)
qed

lemma eighths_rnd32:
  assumes "x = of_int m / 8" "\<bar>x\<bar> < 2 ^ 21"
  shows "rnd32 x = Fin x"
proof -
  have "\<bar>of_int m :: rat\<bar> < 2 ^ 24" using assms by simp
  then have m: "\<bar>m\<bar> < 2 ^ 24"
    by (metis of_int_abs of_int_less_iff of_int_numeral of_int_power)
  show ?thesis unfolding rnd32_def
    by (rule round_float_exact [OF m, where j = "- 3"]) (simp_all add: assms power_int_def field_simps)
qed

lemma rne_error: "\<bar>of_int (rne x) - x\<bar> \<le> 1 / 2"
proof -
  have "of_int \<lfloor>x\<rfloor> \<le> x" "x < of_int \<lfloor>x\<rfloor> + 1" by linarith+
  then show ?thesis by (auto simp: rne_def Let_def)
qed

lemma round_float_near:
  assumes x: "\<bar>x\<bar> < 2 powi k" and k: "emin < k" "k < emax" and p: "1 \<le> p"
  obtains r where "round_float p emin emax x = Fin r" "\<bar>r - x\<bar> \<le> 2 powi (k - 1 - int p)"
proof (cases "x = 0")
  case True
  show ?thesis by (rule that [of 0]) (simp_all add: True round_float_def)
next
  case False
  then have ax: "0 < \<bar>x\<bar>" by simp
  define e where "e = max (ilog2 \<bar>x\<bar>) emin"
  define q :: rat where "q = 2 powi (e - int p + 1)"
  define r where "r = of_int (rne (x / q)) * q"
  have qpos: "0 < q" by (simp add: q_def)
  have e: "e \<le> k - 1" using ilog2_less [OF ax x] k by (simp add: e_def)
  have "r - x = (of_int (rne (x / q)) - x / q) * q"
    using qpos by (simp add: r_def left_diff_distrib)
  then have "\<bar>r - x\<bar> = \<bar>of_int (rne (x / q)) - x / q\<bar> * q"
    using qpos by (simp add: abs_mult)
  also have "\<dots> \<le> 1 / 2 * q"
    by (rule mult_right_mono [OF rne_error]) (use qpos in simp)
  also have "\<dots> = 2 powi (e - int p)"
    by (simp add: q_def power_int_add)
  also have "\<dots> \<le> 2 powi (k - 1 - int p)"
    by (rule powi_mono) (use e in simp)
  finally have err: "\<bar>r - x\<bar> \<le> 2 powi (k - 1 - int p)" .
  have "2 powi (k - 1 - int p) \<le> (2::rat) powi k"
    by (rule powi_mono) simp
  then have "\<bar>r\<bar> < 2 powi k + 2 powi k" using err x by linarith
  also have "\<dots> = 2 powi (k + 1)" by (simp add: power_int_add)
  finally have rk: "\<bar>r\<bar> < 2 powi (k + 1)" .
  have "\<not> (r \<noteq> 0 \<and> emax < ilog2 \<bar>r\<bar>)"
  proof
    assume a: "r \<noteq> 0 \<and> emax < ilog2 \<bar>r\<bar>"
    then have "0 < \<bar>r\<bar>" by simp
    from ilog2_less [OF this rk] a k show False by simp
  qed
  moreover have "round_float p emin emax x =
      (if r \<noteq> 0 \<and> emax < ilog2 \<bar>r\<bar> then (if 0 < x then PInf else NInf) else Fin r)"
    using False by (simp add: round_float_def Let_def e_def q_def r_def)
  ultimately have "round_float p emin emax x = Fin r"
    by (simp only: if_False)
  then show ?thesis using err by (rule that)
qed

lemma eighths_iff: "eighths x \<longleftrightarrow> (\<exists>m. x = of_int m / 8)"
proof -
  have "x * 8 = of_int m \<longleftrightarrow> x = of_int m / 8" for m by auto
  then show ?thesis unfolding eighths_def of_int_floor_cancel by simp
qed

lemma eighths_add: "eighths x \<Longrightarrow> eighths y \<Longrightarrow> eighths (x + y)"
  unfolding eighths_iff
proof (elim exE)
  fix m k assume "x = of_int m / 8" "y = of_int k / 8"
  then have "x + y = of_int (m + k) / 8" by simp
  then show "\<exists>j. x + y = of_int j / 8" ..
qed

lemma eighths_minus: "eighths x \<Longrightarrow> eighths (- x)"
  unfolding eighths_iff
proof (elim exE)
  fix m assume "x = of_int m / 8"
  then have "- x = of_int (- m) / 8" by simp
  then show "\<exists>j. - x = of_int j / 8" ..
qed

lemma eighths_mult_nat: "eighths x \<Longrightarrow> eighths (x * of_nat n)"
  unfolding eighths_iff
proof (elim exE)
  fix m assume "x = of_int m / 8"
  then have "x * of_nat n = of_int (m * int n) / 8" by simp
  then show "\<exists>j. x * of_nat n = of_int j / 8" ..
qed

lemma eighths_64: "eighths x \<Longrightarrow> \<bar>x\<bar> < 2 ^ 21 \<Longrightarrow> rnd64 x = Fin x"
  unfolding eighths_iff using eighths_rnd64 by blast

lemma eighths_32: "eighths x \<Longrightarrow> \<bar>x\<bar> < 2 ^ 21 \<Longrightarrow> rnd32 x = Fin x"
  unfolding eighths_iff using eighths_rnd32 by blast

lemma of_count_exact:
  assumes "n < 2 ^ 53"
  shows "of_count n = Fin (of_nat n)"
proof -
  have "int n < int (2 ^ 53)" using assms by (simp only: of_nat_less_iff)
  then have m: "\<bar>int n\<bar> < 2 ^ 53" by simp
  show ?thesis unfolding of_count_def rnd64_def
    by (rule round_float_exact [OF m, where j = 0]) simp_all
qed

lemma rnd64_unit:
  assumes "\<bar>x\<bar> \<le> 1"
  shows "\<exists>r. rnd64 x = Fin r"
proof -
  have h: "\<bar>x\<bar> < 2 powi 1" using assms by simp
  show ?thesis unfolding rnd64_def
    by (rule round_float_near [where x = x and k = 1 and emin = "- 1022" and emax = 1023 and p = 53])
      (use h in auto)
qed

lemma linspace_elem_exact:
  assumes ll: "eighths ll" and d: "eighths d" and n: "n < 2 ^ 53"
    and b: "\<bar>ll\<bar> + \<bar>d\<bar> * of_nat n < 2 ^ 21" and i: "i < n"
  shows "linspace_elem (Fin ll) (fadd (Fin ll) (fmul (Fin d) (of_count n))) n i
         = Fin (ll + d * of_nat i)"
proof -
  have npos: "0 < n" using i by simp
  have cn: "of_count n = Fin (of_nat n)" by (rule of_count_exact [OF n])
  have ci: "of_count i = Fin (of_nat i)" by (rule of_count_exact) (use i n in simp)
  have dn0: "0 \<le> \<bar>d\<bar> * of_nat n" by simp
  have ll0: "0 \<le> \<bar>ll\<bar>" by simp
  have di: "\<bar>d\<bar> * of_nat i \<le> \<bar>d\<bar> * of_nat n"
    by (rule mult_left_mono) (use i in simp_all)
  have b1: "\<bar>d * of_nat n\<bar> < 2 ^ 21" using b ll0 by (simp add: abs_mult)
  have b2: "\<bar>ll + d * of_nat n\<bar> < 2 ^ 21"
    using b abs_triangle_ineq [of ll "d * of_nat n"] by (simp add: abs_mult)
  have b3: "\<bar>d * of_nat i\<bar> < 2 ^ 21" using b ll0 di by (simp add: abs_mult)
  have b4: "\<bar>ll + d * of_nat i\<bar> < 2 ^ 21"
    using b di abs_triangle_ineq [of ll "d * of_nat i"] by (simp add: abs_mult)
  have b5: "\<bar>d\<bar> < 2 ^ 21"
  proof -
    have "\<bar>d\<bar> * 1 \<le> \<bar>d\<bar> * of_nat n" by (rule mult_left_mono) (use npos in simp_all)
    then show ?thesis using b ll0 by simp
  qed
  have mul: "fmul (Fin d) (of_count n) = Fin (d * of_nat n)"
    by (simp add: cn eighths_64 [OF eighths_mult_nat [OF d] b1])
  have ur: "fadd (Fin ll) (fmul (Fin d) (of_count n)) = Fin (ll + d * of_nat n)"
    by (simp add: mul eighths_64 [OF eighths_add [OF ll eighths_mult_nat [OF d]] b2])
  have delta: "fsub (Fin (ll + d * of_nat n)) (Fin ll) = Fin (d * of_nat n)"
    by (simp add: fsub_def eighths_64 [OF eighths_mult_nat [OF d] b1])
  have step: "fdiv (Fin (d * of_nat n)) (of_count n) = Fin d"
    using npos by (simp add: cn eighths_64 [OF d b5])
  have y: "fadd (Fin (d * of_nat i)) (Fin ll) = Fin (ll + d * of_nat i)"
    using eighths_64 [OF eighths_add [OF ll eighths_mult_nat [OF d]] b4]
    by (simp add: add.commute)
  have c32: "to_float32 (Fin (ll + d * of_nat i)) = Fin (ll + d * of_nat i)"
    by (simp add: eighths_32 [OF eighths_add [OF ll eighths_mult_nat [OF d]] b4])
  have prod: "(if Fin d = Fin 0 then fmul (fdiv (of_count i) (of_count n)) (Fin (d * of_nat n))
               else fmul (of_count i) (Fin d)) = Fin (d * of_nat i)"
  proof (cases "d = 0")
    case False
    have "fmul (of_count i) (Fin d) = Fin (d * of_nat i)"
      using eighths_64 [OF eighths_mult_nat [OF d] b3] by (simp add: ci mult.commute)
    then show ?thesis using False by simp
  next
    case True
    have "\<bar>(of_nat i :: rat) / of_nat n\<bar> \<le> 1" using i by simp
    from rnd64_unit [OF this] obtain r where r: "rnd64 (of_nat i / of_nat n) = Fin r" ..
    have z: "rnd64 0 = Fin 0" by (simp add: rnd64_def round_float_def)
    have "fmul (fdiv (of_count i) (of_count n)) (Fin 0) = Fin 0"
      using npos by (simp add: cn ci r z)
    then show ?thesis using True by simp
  qed
  show ?thesis
    unfolding linspace_elem_def Let_def ur delta step prod
    using npos by (simp only: if_True y c32)
qed

lemma np_linspace_exact:
  assumes "eighths ll" "eighths d" "n < 2 ^ 53" "\<bar>ll\<bar> + \<bar>d\<bar> * of_nat n < 2 ^ 21"
  shows "np_linspace (Fin ll) (fadd (Fin ll) (fmul (Fin d) (of_count n))) n
         = map (\<lambda>i. Fin (ll + d * of_nat i)) [0..<n]"
  unfolding np_linspace_def
  by (rule map_cong [OF refl]) (simp add: linspace_elem_exact [OF assms])

lemma py_round_eighths:
  assumes "eighths x" "\<bar>x\<bar> < 2 ^ 21"
  shows "py_round (Fin x) 3 = Fin x"
proof -
  from assms(1) obtain m where m: "x = of_int m / 8" unfolding eighths_iff ..
  have "x * 10 ^ 3 = of_int (m * 125)" by (simp add: m)
  then have "of_int (rne (x * 10 ^ 3)) / 10 ^ 3 = x"
    by (simp only: rne_of_int) (simp add: m)
  then show ?thesis by (simp add: py_round_def eighths_64 [OF assms])
qed

lemma map_of_fold_update:
  "map_of (fold (\<lambda>(k, v). AList.update k v) xs acc) = map_of (rev xs @ acc)"
proof (induction xs arbitrary: acc)
  case Nil
  show ?case by simp
next
  case (Cons p xs)
  obtain k v where p: "p = (k, v)" by (cases p)
  show ?case
    by (rule ext) (simp add: p Cons.IH map_add_def update_conv' split: option.split)
qed

lemma map_of_dict_of_items: "map_of (dict_of_items xs) = map_of (rev xs)"
  by (simp add: dict_of_items_def map_of_fold_update)

lemma map_of_distinct_rev:
  assumes "distinct (map fst xs)"
  shows "map_of (rev xs) = map_of xs"
  using assms
proof (induction xs)
  case Nil
  show ?case by simp
next
  case (Cons p xs)
  obtain k v where p: "p = (k, v)" by (cases p)
  have "map_of xs k = None" using Cons.prems by (simp add: p map_of_eq_None_iff)
  then show ?case using Cons
    by (auto simp: p map_add_def fun_eq_iff split: option.split)
qed

lemma map_of_rename_keys:
  assumes "inj_on f (set (map fst xs))" "map_of xs k = Some v"
  shows "map_of (map (\<lambda>(a, b). (f a, g a b)) xs) (f k) = Some (g k v)"
  using assms unfolding set_map
proof (induction xs)
  case Nil
  then show ?case by simp
next
  case (Cons p xs)
  obtain a b where p: "p = (a, b)" by (cases p)
  show ?case
  proof (cases "a = k")
    case True
    then show ?thesis using Cons.prems by (simp add: p)
  next
    case False
    have "k \<in> fst ` set xs" using Cons.prems(2) False
      by (auto simp: p dest: map_of_SomeD intro: rev_image_eqI)
    then have "f a \<noteq> f k" using Cons.prems(1) False by (auto simp: p inj_on_def)
    moreover have "inj_on f (fst ` set xs)" using Cons.prems(1) by (simp add: p inj_on_def)
    ultimately show ?thesis using Cons.IH Cons.prems(2) False by (simp add: p)
  qed
qed

lemma map_of_rename_keys_None:
  assumes "k' \<notin> f ` fst ` set xs"
  shows "map_of (map (\<lambda>(a, b). (f a, g a b)) xs) k' = None"
  using assms by (induction xs) (auto simp: map_of_eq_None_iff)

lemma rename_Inr:
  assumes "rename ds nd = Inr ds1"
  shows "variables ds1 = map (rename_var nd) (variables ds)"
    and "distinct (map fst (variables ds1))"
    and "dims ds1 = dict_of_items (map (\<lambda>(k, n). (dict_get nd k, n)) (dims ds))"
    and "attrs ds1 = attrs ds"
  using assms by (auto simp: rename_def Let_def split: list.splits if_splits)

lemma rename_lookup:
  assumes r: "rename ds nd = Inr ds1" and v: "map_of (variables ds) k = Some v"
  shows "map_of (variables ds1) (dict_get nd k)
         = Some (v\<lparr>vdims := map (dict_get nd) (vdims v)\<rparr>)"
proof -
  have "(k, v) \<in> set (variables ds)" by (rule map_of_SomeD [OF v])
  then have "rename_var nd (k, v) \<in> set (variables ds1)"
    unfolding rename_Inr(1) [OF r] by simp
  then have "(dict_get nd k, v\<lparr>vdims := map (dict_get nd) (vdims v)\<rparr>) \<in> set (variables ds1)"
    by (simp add: rename_var_def)
  then show ?thesis using rename_Inr(2) [OF r] by (simp add: map_of_is_SomeI)
qed

lemma assign_coord_Inr:
  assumes "assign_coord ds (k, xs) = Inr ds1"
  shows "variables ds1 = AList.update k \<lparr>vdims = [k], vshape = [length xs], vdata = xs, vattrs = []\<rparr> (variables ds)"
    and "attrs ds1 = attrs ds"
  using assms by (auto simp: assign_coord_def Let_def split: option.splits if_splits)

lemma copy_attrs_Inr:
  assumes "copy_attrs ds t s = Inr ds1"
  shows "\<exists>a. map_of (variables ds1) = (map_of (variables ds))(t \<mapsto> a) \<and> 
             map_option vdata (Some a) = map_option vdata (map_of (variables ds) t)
           \<and> map_option vdims (Some a) = map_option vdims (map_of (variables ds) t)
           \<and> map_option vshape (Some a) = map_option vshape (map_of (variables ds) t)"
  using assms
  by (auto simp: copy_attrs_def getattr_def bind_error_def update_conv' split: option.splits sum.splits)

lemma copy_attrs_values:
  assumes "copy_attrs ds t s = Inr ds1"
  shows "values_of ds1 k = values_of ds k"
  using copy_attrs_Inr [OF assms] by (auto simp: values_of_def)

lemma add_latlon_coords_Inr:
  assumes "add_latlon_coords ds = Inr ds'"
  obtains dx0 dy0 lat0 lon0 ew ns ds1 ds2 ds3 ds4 ds5 where
    "float_attr (attrs ds) ''DX'' = Inr dx0"
    "float_attr (attrs ds) ''DY'' = Inr dy0"
    "py_len ds ''east_west'' = Inr ew"
    "py_len ds ''north_south'' = Inr ns"
    "float_attr (attrs ds) ''SOUTH_WEST_CORNER_LAT'' = Inr lat0"
    "float_attr (attrs ds) ''SOUTH_WEST_CORNER_LON'' = Inr lon0"
    "rename ds [(''lon'', ''orig_lon''), (''lat'', ''orig_lat'')] = Inr ds1"
    "rename ds1 [(''north_south'', ''lat''), (''east_west'', ''lon'')] = Inr ds2"
    "assign_coord ds2 (''lat'', np_linspace (py_round lat0 3)
        (fadd (py_round lat0 3) (fmul (py_round dy0 3) (of_count ns))) ns) = Inr ds3"
    "assign_coord ds3 (''lon'', np_linspace (py_round lon0 3)
        (fadd (py_round lon0 3) (fmul (py_round dx0 3) (of_count ew))) ew) = Inr ds4"
    "copy_attrs ds4 ''lon'' ''orig_lon'' = Inr ds5"
    "copy_attrs ds5 ''lat'' ''orig_lat'' = Inr ds'"
  using assms
  by (auto simp: add_latlon_coords_def bind_error_def Let_def split: sum.splits)

lemma length_np_linspace: "length (np_linspace a b n) = n"
  by (simp add: np_linspace_def)

lemma add_latlon_coords_axes:
  assumes ok: "add_latlon_coords ds = Inr ds'"
    and a: "float_attr (attrs ds) ''DX'' = Inr dx0" "float_attr (attrs ds) ''DY'' = Inr dy0"
      "float_attr (attrs ds) ''SOUTH_WEST_CORNER_LAT'' = Inr lat0"
      "float_attr (attrs ds) ''SOUTH_WEST_CORNER_LON'' = Inr lon0"
    and l: "py_len ds ''east_west'' = Inr ew" "py_len ds ''north_south'' = Inr ns"
  shows "values_of ds' ''lat'' = Some (np_linspace (py_round lat0 3)
           (fadd (py_round lat0 3) (fmul (py_round dy0 3) (of_count ns))) ns)"
    and "values_of ds' ''lon'' = Some (np_linspace (py_round lon0 3)
           (fadd (py_round lon0 3) (fmul (py_round dx0 3) (of_count ew))) ew)"
proof -
  from ok obtain ds2 ds3 ds4 ds5 where
    s3: "assign_coord ds2 (''lat'', np_linspace (py_round lat0 3)
        (fadd (py_round lat0 3) (fmul (py_round dy0 3) (of_count ns))) ns) = Inr ds3"
    and s4: "assign_coord ds3 (''lon'', np_linspace (py_round lon0 3)
        (fadd (py_round lon0 3) (fmul (py_round dx0 3) (of_count ew))) ew) = Inr ds4"
    and s5: "copy_attrs ds4 ''lon'' ''orig_lon'' = Inr ds5"
    and s6: "copy_attrs ds5 ''lat'' ''orig_lat'' = Inr ds'"
    using a l by (elim add_latlon_coords_Inr) simp
  have "values_of ds4 ''lat'' = Some (np_linspace (py_round lat0 3)
           (fadd (py_round lat0 3) (fmul (py_round dy0 3) (of_count ns))) ns)"
    by (simp add: values_of_def assign_coord_Inr(1) [OF s4] assign_coord_Inr(1) [OF s3] update_conv')
  then show "values_of ds' ''lat'' = Some (np_linspace (py_round lat0 3)
           (fadd (py_round lat0 3) (fmul (py_round dy0 3) (of_count ns))) ns)"
    by (simp add: copy_attrs_values [OF s6] copy_attrs_values [OF s5])
  have "values_of ds4 ''lon'' = Some (np_linspace (py_round lon0 3)
           (fadd (py_round lon0 3) (fmul (py_round dx0 3) (of_count ew))) ew)"
    by (simp add: values_of_def assign_coord_Inr(1) [OF s4] update_conv')
  then show "values_of ds' ''lon'' = Some (np_linspace (py_round lon0 3)
           (fadd (py_round lon0 3) (fmul (py_round dx0 3) (of_count ew))) ew)"
    by (simp add: copy_attrs_values [OF s6] copy_attrs_values [OF s5])
qed

lemma update_fresh: "k \<notin> fst ` set al \<Longrightarrow> AList.update k v al = al @ [(k, v)]"
  by (induction al) auto

lemma fold_update_distinct:
  "distinct (map fst (acc @ xs)) \<Longrightarrow> fold (\<lambda>(k, v). AList.update k v) xs acc = acc @ xs"
proof (induction xs arbitrary: acc)
  case Nil
  show ?case by simp
next
  case (Cons p xs)
  obtain k v where p: "p = (k, v)" by (cases p)
  have "k \<notin> fst ` set acc" using Cons.prems by (auto simp: p)
  then have u: "AList.update k v acc = acc @ [(k, v)]" by (rule update_fresh)
  have "distinct (map fst ((acc @ [(k, v)]) @ xs))" using Cons.prems by (simp add: p)
  from Cons.IH [OF this] show ?case by (simp add: p u)
qed

lemma dict_of_items_distinct: "distinct (map fst xs) \<Longrightarrow> dict_of_items xs = xs"
  using fold_update_distinct [of "[]" xs] by (simp add: dict_of_items_def)

lemma dict_get_nd1:
  "dict_get nd1 k = (if k = ''lon'' then ''orig_lon'' else if k = ''lat'' then ''orig_lat'' else k)"
  by (simp add: dict_get_def)

lemma dict_get_nd2:
  "dict_get nd2 k = (if k = ''north_south'' then ''lat'' else if k = ''east_west'' then ''lon'' else k)"
  by (simp add: dict_get_def)

lemma inj_nd1:
  assumes "''orig_lat'' \<notin> S" "''orig_lon'' \<notin> S"
  shows "inj_on (dict_get nd1) S"
  using assms by (auto simp: inj_on_def dict_get_nd1 split: if_splits)

lemma inj_nd2:
  assumes "''lat'' \<notin> S" "''lon'' \<notin> S"
  shows "inj_on (dict_get nd2) S"
  using assms by (auto simp: inj_on_def dict_get_nd2 split: if_splits)

lemma rename_succeeds:
  assumes keys: "\<forall>k \<in> set (map fst nd). map_of (variables ds) k \<noteq> None \<or> map_of (dims ds) k \<noteq> None"
    and inj: "inj_on (dict_get nd) (set (map fst (variables ds)))"
    and dist: "distinct (map fst (variables ds))"
  shows "\<exists>ds1. rename ds nd = Inr ds1"
proof -
  have f: "filter (\<lambda>k. map_of (variables ds) k = None \<and> map_of (dims ds) k = None) (map fst nd) = []"
    using keys by (auto simp: filter_empty_conv)
  have "map fst (map (rename_var nd) (variables ds)) = map (dict_get nd) (map fst (variables ds))"
    by (simp add: rename_var_def comp_def)
  then have "distinct (map fst (map (rename_var nd) (variables ds)))"
    using inj dist by (simp only: distinct_map)
  then show ?thesis using f by (simp add: rename_def Let_def)
qed

lemma names_rename:
  assumes "rename ds nd = Inr ds1"
  shows "map fst (variables ds1) = map (dict_get nd) (map fst (variables ds))"
  by (simp add: rename_Inr(1) [OF assms] rename_var_def comp_def)

lemma dims_rename:
  assumes r: "rename ds nd = Inr ds1"
    and inj: "inj_on (dict_get nd) (set (map fst (dims ds)))"
    and dist: "distinct (map fst (dims ds))"
  shows "dims ds1 = map (\<lambda>(k, n). (dict_get nd k, n)) (dims ds)"
proof -
  have "map fst (map (\<lambda>(k, n). (dict_get nd k, n)) (dims ds)) = map (dict_get nd) (map fst (dims ds))"
    by (simp add: comp_def case_prod_beta)
  then have "distinct (map fst (map (\<lambda>(k, n). (dict_get nd k, n)) (dims ds)))"
    using inj dist by (simp only: distinct_map)
  then show ?thesis by (simp add: rename_Inr(3) [OF r] dict_of_items_distinct)
qed

lemma py_len_np: "lis_frame ds \<Longrightarrow> \<exists>n. map_of (dims ds) ''north_south'' = Some n \<and> py_len ds ''north_south'' = Inr n"
  by (auto simp: lis_frame_def split: option.splits)

lemma py_len_ew: "lis_frame ds \<Longrightarrow> \<exists>n. map_of (dims ds) ''east_west'' = Some n \<and> py_len ds ''east_west'' = Inr n"
  by (auto simp: lis_frame_def split: option.splits)

lemma map_of_in_names: "k \<in> set (map fst xs) \<Longrightarrow> map_of xs k \<noteq> None"
  by (simp add: map_of_eq_None_iff)

lemma assign_coord_succeeds:
  assumes "map_of (dims ds) k = Some (length xs)"
  shows "\<exists>ds1. assign_coord ds (k, xs) = Inr ds1 \<and> dims ds1 = dims ds
    \<and> variables ds1 = AList.update k \<lparr>vdims = [k], vshape = [length xs], vdata = xs, vattrs = []\<rparr> (variables ds)"
  using assms by (simp add: assign_coord_def Let_def)

lemma copy_attrs_succeeds:
  assumes "map_of (variables ds) t = Some a" "map_of (variables ds) s = Some b"
  shows "\<exists>ds1. copy_attrs ds t s = Inr ds1 \<and> map_of (variables ds1) = (map_of (variables ds))(t \<mapsto> a\<lparr>vattrs := vattrs b\<rparr>)"
  using assms by (auto simp: copy_attrs_def getattr_def bind_error_def update_conv')

lemma add_latlon_coords_succeeds:
  assumes wf: "lis_frame ds"
    and a: "float_attr (attrs ds) ''DX'' = Inr dx0" "float_attr (attrs ds) ''DY'' = Inr dy0"
      "float_attr (attrs ds) ''SOUTH_WEST_CORNER_LAT'' = Inr lat0"
      "float_attr (attrs ds) ''SOUTH_WEST_CORNER_LON'' = Inr lon0"
  shows "\<exists>ds'. add_latlon_coords ds = Inr ds'"
proof -
  let ?vs = "variables ds"
  let ?names = "set (map fst ?vs)"
  let ?dnames = "set (map fst (dims ds))"
  from wf have dv: "distinct (map fst ?vs)" and dd: "distinct (map fst (dims ds))"
    and inlat: "''lat'' \<in> ?names" and inlon: "''lon'' \<in> ?names"
    and o1: "''orig_lat'' \<notin> ?names" and o2: "''orig_lon'' \<notin> ?names"
    and o3: "''orig_lat'' \<notin> ?dnames" and o4: "''orig_lon'' \<notin> ?dnames"
    by (simp_all add: lis_frame_def)
  from py_len_np [OF wf] obtain ns where ns: "map_of (dims ds) ''north_south'' = Some ns"
    "py_len ds ''north_south'' = Inr ns" by blast
  from py_len_ew [OF wf] obtain ew where ew: "map_of (dims ds) ''east_west'' = Some ew"
    "py_len ds ''east_west'' = Inr ew" by blast
  \<comment> \<open>first rename\<close>
  have "\<exists>ds1. rename ds nd1 = Inr ds1"
    by (rule rename_succeeds [OF _ inj_nd1 [OF o1 o2] dv])
      (use inlat inlon in \<open>auto simp: map_of_eq_None_iff\<close>)
  then obtain ds1 where r1: "rename ds nd1 = Inr ds1" ..
  have n1: "map fst (variables ds1) = map (dict_get nd1) (map fst ?vs)"
    by (rule names_rename [OF r1])
  have d1: "dims ds1 = map (\<lambda>(k, n). (dict_get nd1 k, n)) (dims ds)"
    by (rule dims_rename [OF r1 inj_nd1 [OF o3 o4] dd])
  have nl1: "''lat'' \<notin> set (map fst (variables ds1))" "''lon'' \<notin> set (map fst (variables ds1))"
    unfolding n1 by (auto simp: dict_get_nd1)
  have dk1: "map fst (dims ds1) = map (dict_get nd1) (map fst (dims ds))"
    by (simp add: d1 comp_def case_prod_beta)
  have dl1: "''lat'' \<notin> set (map fst (dims ds1))" "''lon'' \<notin> set (map fst (dims ds1))"
    unfolding dk1 by (auto simp: dict_get_nd1)
  have dd1: "distinct (map fst (dims ds1))"
    unfolding dk1 using inj_nd1 [OF o3 o4] dd by (simp only: distinct_map)
  have ns1: "map_of (dims ds1) ''north_south'' = Some ns"
    using map_of_rename_keys [OF inj_nd1 [OF o3 o4] ns(1), of "\<lambda>a b. b"]
    by (simp add: d1 dict_get_nd1)
  have ew1: "map_of (dims ds1) ''east_west'' = Some ew"
    using map_of_rename_keys [OF inj_nd1 [OF o3 o4] ew(1), of "\<lambda>a b. b"]
    by (simp add: d1 dict_get_nd1)
  \<comment> \<open>second rename\<close>
  have "\<exists>ds2. rename ds1 nd2 = Inr ds2"
    by (rule rename_succeeds [OF _ inj_nd2 [OF nl1] rename_Inr(2) [OF r1]])
      (use ns1 ew1 in auto)
  then obtain ds2 where r2: "rename ds1 nd2 = Inr ds2" ..
  have d2: "dims ds2 = map (\<lambda>(k, n). (dict_get nd2 k, n)) (dims ds1)"
    by (rule dims_rename [OF r2 inj_nd2 [OF dl1] dd1])
  have lat2: "map_of (dims ds2) ''lat'' = Some ns"
    using map_of_rename_keys [OF inj_nd2 [OF dl1] ns1, of "\<lambda>a b. b"]
    by (simp add: d2 dict_get_nd2)
  have lon2: "map_of (dims ds2) ''lon'' = Some ew"
    using map_of_rename_keys [OF inj_nd2 [OF dl1] ew1, of "\<lambda>a b. b"]
    by (simp add: d2 dict_get_nd2)
  \<comment> \<open>the original variables under their new names\<close>
  from inlat obtain vlat where vlat: "map_of ?vs ''lat'' = Some vlat"
    using map_of_in_names by fastforce
  from inlon obtain vlon where vlon: "map_of ?vs ''lon'' = Some vlon"
    using map_of_in_names by fastforce
  from rename_lookup [OF r2 rename_lookup [OF r1 vlat]]
  obtain olat where olat: "map_of (variables ds2) ''orig_lat'' = Some olat"
    by (simp add: dict_get_nd1 dict_get_nd2)
  from rename_lookup [OF r2 rename_lookup [OF r1 vlon]]
  obtain olon where olon: "map_of (variables ds2) ''orig_lon'' = Some olon"
    by (simp add: dict_get_nd1 dict_get_nd2)
  \<comment> \<open>the new coordinates\<close>
  let ?A = "np_linspace (py_round lat0 3) (fadd (py_round lat0 3) (fmul (py_round dy0 3) (of_count ns))) ns"
  let ?B = "np_linspace (py_round lon0 3) (fadd (py_round lon0 3) (fmul (py_round dx0 3) (of_count ew))) ew"
  have "map_of (dims ds2) ''lat'' = Some (length ?A)" by (simp add: lat2 length_np_linspace)
  from assign_coord_succeeds [OF this] obtain ds3 where
    s3: "assign_coord ds2 (''lat'', ?A) = Inr ds3" and d3: "dims ds3 = dims ds2"
    and v3: "variables ds3 = AList.update ''lat'' \<lparr>vdims = [''lat''], vshape = [length ?A], vdata = ?A, vattrs = []\<rparr> (variables ds2)"
    by blast
  have "map_of (dims ds3) ''lon'' = Some (length ?B)" by (simp add: d3 lon2 length_np_linspace)
  from assign_coord_succeeds [OF this] obtain ds4 where
    s4: "assign_coord ds3 (''lon'', ?B) = Inr ds4"
    and v4: "variables ds4 = AList.update ''lon'' \<lparr>vdims = [''lon''], vshape = [length ?B], vdata = ?B, vattrs = []\<rparr> (variables ds3)"
    by blast
  have m4: "map_of (variables ds4) ''lon'' \<noteq> None" "map_of (variables ds4) ''orig_lon'' = Some olon"
    "map_of (variables ds4) ''lat'' \<noteq> None" "map_of (variables ds4) ''orig_lat'' = Some olat"
    by (simp_all add: v4 v3 update_conv' olon olat)
  then obtain c1 where c1: "map_of (variables ds4) ''lon'' = Some c1" by blast
  from copy_attrs_succeeds [OF c1 m4(2)] obtain ds5 where
    s5: "copy_attrs ds4 ''lon'' ''orig_lon'' = Inr ds5"
    and v5: "map_of (variables ds5) = (map_of (variables ds4))(''lon'' \<mapsto> c1\<lparr>vattrs := vattrs olon\<rparr>)"
    by blast
  from m4 obtain c2 where c2: "map_of (variables ds5) ''lat'' = Some c2"
    by (auto simp: v5)
  have "map_of (variables ds5) ''orig_lat'' = Some olat" by (simp add: v5 m4)
  from copy_attrs_succeeds [OF c2 this] obtain ds6 where
    s6: "copy_attrs ds5 ''lat'' ''orig_lat'' = Inr ds6" by blast
  show ?thesis
    using a ns(2) ew(2) r1 r2 s3 s4 s5 s6
    by (simp add: add_latlon_coords_def bind_error_def Let_def)
qed

subsection \<open>Rounding errors of the axis computation\<close>













subsection \<open>What the preprocessing function computes\<close>





lemma nth_np_linspace: "i < n \<Longrightarrow> np_linspace a b n ! i = linspace_elem a b n i"
  by (simp add: np_linspace_def)

lemma axis_at_add:
  assumes wf: "lis_frame ds"
    and a: "float_attr (attrs ds) ''DX'' = Inr dx0" "float_attr (attrs ds) ''DY'' = Inr dy0"
      "float_attr (attrs ds) ''SOUTH_WEST_CORNER_LAT'' = Inr lat0"
      "float_attr (attrs ds) ''SOUTH_WEST_CORNER_LON'' = Inr lon0"
    and l: "py_len ds ''east_west'' = Inr ew" "py_len ds ''north_south'' = Inr ns"
  shows "axis_at (add_latlon_coords ds) ''lat'' i =
      (if i < ns then Some (linspace_elem (py_round lat0 3)
           (fadd (py_round lat0 3) (fmul (py_round dy0 3) (of_count ns))) ns i) else None)"
    and "axis_at (add_latlon_coords ds) ''lon'' i =
      (if i < ew then Some (linspace_elem (py_round lon0 3)
           (fadd (py_round lon0 3) (fmul (py_round dx0 3) (of_count ew))) ew i) else None)"
proof -
  from add_latlon_coords_succeeds [OF wf a] obtain ds' where ok: "add_latlon_coords ds = Inr ds'" ..
  note ax = add_latlon_coords_axes [OF ok a l]
  show "axis_at (add_latlon_coords ds) ''lat'' i =
      (if i < ns then Some (linspace_elem (py_round lat0 3)
           (fadd (py_round lat0 3) (fmul (py_round dy0 3) (of_count ns))) ns i) else None)"
    by (simp add: axis_at_def ok ax length_np_linspace nth_np_linspace)
  show "axis_at (add_latlon_coords ds) ''lon'' i =
      (if i < ew then Some (linspace_elem (py_round lon0 3)
           (fadd (py_round lon0 3) (fmul (py_round dx0 3) (of_count ew))) ew i) else None)"
    by (simp add: axis_at_def ok ax length_np_linspace nth_np_linspace)
qed






section \<open>The chunk planner partitions the inputs\<close>

declare chunk_plan.simps [simp del]

lemma chunk_plan_Nil: "chunk_plan k [] = []"
  by (simp add: chunk_plan.simps)

lemma chunk_plan_step:
  "0 < k \<Longrightarrow> xs \<noteq> [] \<Longrightarrow> chunk_plan k xs = take k xs # chunk_plan k (drop k xs)"
  by (subst chunk_plan.simps) simp

lemma concat_chunk_plan: "0 < k \<Longrightarrow> concat (chunk_plan k xs) = xs"
proof (induction k xs rule: chunk_plan.induct)
  case (1 k xs)
  show ?case
  proof (cases "xs = []")
    case True
    then show ?thesis by (simp add: chunk_plan_Nil)
  next
    case False
    with 1 show ?thesis by (simp add: chunk_plan_step)
  qed
qed

lemma length_chunk_plan: "0 < k \<Longrightarrow> length (chunk_plan k xs) = (length xs + k - 1) div k"
proof (induction k xs rule: chunk_plan.induct)
  case (1 k xs)
  show ?case
  proof (cases "xs = []")
    case True
    then show ?thesis using 1(2) by (simp add: chunk_plan_Nil)
  next
    case False
    then have ih: "length (chunk_plan k (drop k xs)) = (length (drop k xs) + k - 1) div k"
      using 1 by simp
    show ?thesis
    proof (cases "k \<le> length xs")
      case True
      then have "length xs + k - 1 = (length xs - k + k - 1) + k" using 1(2) by simp
      then have "(length xs + k - 1) div k = (length xs - k + k - 1) div k + 1"
        using 1(2) by (simp only: div_add_self2)
      then show ?thesis using False 1(2) ih by (simp add: chunk_plan_step)
    next
      case False
      then have "drop k xs = []" by simp
      moreover have "(length xs + k - 1) div k = 1"
      proof -
        have "0 < length xs" using \<open>xs \<noteq> []\<close> by simp
        then have "k \<le> length xs + k - 1" "length xs + k - 1 < 2 * k" using False by linarith+
        then show ?thesis by (simp add: div_nat_eqI)
      qed
      ultimately show ?thesis using \<open>xs \<noteq> []\<close> 1(2) by (simp add: chunk_plan_step chunk_plan_Nil)
    qed
  qed
qed

lemma nth_chunk_plan:
  "0 < k \<Longrightarrow> j < length (chunk_plan k xs) \<Longrightarrow> chunk_plan k xs ! j = take k (drop (j * k) xs)"
proof (induction j arbitrary: xs)
  case 0
  then have "xs \<noteq> []" by (auto simp: chunk_plan_Nil)
  then show ?case using 0 by (simp add: chunk_plan_step)
next
  case (Suc j)
  then have ne: "xs \<noteq> []" by (auto simp: chunk_plan_Nil)
  then have "j < length (chunk_plan k (drop k xs))" using Suc.prems by (simp add: chunk_plan_step)
  from Suc.IH [OF Suc.prems(1) this] show ?case
    using ne Suc.prems(1) by (simp add: chunk_plan_step add.commute)
qed

lemma full_chunk:
  assumes k: "0 < k" and j: "Suc j < length (chunk_plan k xs)"
  shows "length (chunk_plan k xs ! j) = k"
proof -
  have "Suc j < (length xs + k - 1) div k" using j by (simp add: length_chunk_plan [OF k])
  then have "Suc (Suc j) * k \<le> length xs + k - 1"
    using k by (simp add: less_eq_div_iff_mult_less_eq Suc_le_eq [symmetric] del: mult_Suc)
  then have "Suc j * k \<le> length xs" using k by simp
  then have "k \<le> length xs - j * k" by simp
  then show ?thesis using nth_chunk_plan [OF k, of j xs] j by simp
qed

lemma chunk_nonempty:
  assumes k: "0 < k" and j: "j < length (chunk_plan k xs)"
  shows "chunk_plan k xs ! j \<noteq> []" "length (chunk_plan k xs ! j) \<le> k"
proof -
  have "j < (length xs + k - 1) div k" using j by (simp add: length_chunk_plan [OF k])
  then have "Suc j * k \<le> length xs + k - 1"
    using k by (simp add: less_eq_div_iff_mult_less_eq Suc_le_eq [symmetric] del: mult_Suc)
  then have "j * k < length xs" using k by simp
  then show "chunk_plan k xs ! j \<noteq> []" using nth_chunk_plan [OF k j] k by simp
  show "length (chunk_plan k xs ! j) \<le> k" using nth_chunk_plan [OF k j] by simp
qed

lemma sum_full_chunks:
  assumes "\<forall>i < j. length (gs ! i) = k" "j \<le> length gs"
  shows "sum_list (map length (take j gs)) = j * k"
  using assms
proof (induction j)
  case 0
  show ?case by simp
next
  case (Suc j)
  then have "sum_list (map length (take j gs)) = j * k" by simp
  moreover have "take (Suc j) gs = take j gs @ [gs ! j]"
    using Suc.prems(2) by (simp add: take_Suc_conv_app_nth)
  ultimately show ?case using Suc.prems(1) by simp
qed

lemma chunk_offset_plan:
  assumes k: "0 < k" and j: "j < length (chunk_plan k xs)"
  shows "chunk_offset n (chunk_plan k xs) j = j * k * n"
proof -
  have "\<forall>i < j. length (chunk_plan k xs ! i) = k"
  proof (intro allI impI)
    fix i assume "i < j"
    then have "Suc i < length (chunk_plan k xs)" using j by simp
    then show "length (chunk_plan k xs ! i) = k" by (rule full_chunk [OF k])
  qed
  from sum_full_chunks [OF this] j show ?thesis by (simp add: chunk_offset_def)
qed

lemma chunk_sizes_23:
  assumes "length xs = 23"
  shows "map length (chunk_plan 10 xs) = [10, 10, 3]"
proof -
  have a: "xs \<noteq> []" "drop 10 xs \<noteq> []" "drop 20 xs \<noteq> []" "drop 30 xs = []"
    using assms by auto
  have "chunk_plan 10 xs = take 10 xs # chunk_plan 10 (drop 10 xs)"
    by (rule chunk_plan_step) (use a in simp_all)
  also have "chunk_plan 10 (drop 10 xs) = take 10 (drop 10 xs) # chunk_plan 10 (drop 20 xs)"
    using chunk_plan_step [of 10 "drop 10 xs"] a by simp
  also have "chunk_plan 10 (drop 20 xs) = take 10 (drop 20 xs) # chunk_plan 10 (drop 30 xs)"
    using chunk_plan_step [of 10 "drop 20 xs"] a by simp
  finally show ?thesis using assms a(4) by (simp add: chunk_plan_Nil)
qed

text \<open>
  Claim C8. For a positive \<open>inputs_per_chunk = k\<close> the planner makes \<open>ceil(L / k)\<close> groups of
  an input sequence of length \<open>L\<close>; every group but the last has exactly \<open>k\<close> members, no
  group is empty or longer than \<open>k\<close>; the groups concatenated in order are the input
  sequence; 23 inputs with \<open>k = 10\<close> give groups of sizes 10, 10 and 3.
\<close>

theorem chunk_plan_partition:
  "0 < k \<Longrightarrow>
   length (chunk_plan k xs) = (length xs + k - 1) div k \<and>
   (\<forall>j. Suc j < length (chunk_plan k xs) \<longrightarrow> length (chunk_plan k xs ! j) = k) \<and>
   (\<forall>j < length (chunk_plan k xs). chunk_plan k xs ! j \<noteq> [] \<and> length (chunk_plan k xs ! j) \<le> k) \<and>
   concat (chunk_plan k xs) = xs \<and>
   (k = 10 \<and> length xs = 23 \<longrightarrow> map length (chunk_plan k xs) = [10, 10, 3])"
  using length_chunk_plan [of k xs] full_chunk [of k _ xs] chunk_nonempty [of k _ xs]
    concat_chunk_plan [of k xs] chunk_sizes_23 [of xs]
  by blast

theorem chunk_plan_partition_witness:
  "(0::nat) < 10 \<and> length (chunk_plan 10 [0..<23::nat]) = 3 \<and>
   length (chunk_plan 10 [0..<23::nat] ! 1) = 10 \<and>
   concat (chunk_plan 10 [0..<23::nat]) = [0..<23] \<and>
   map length (chunk_plan 10 [0..<23::nat]) = [10, 10, 3]"
  using chunk_plan_partition [of 10 "[0..<23::nat]"] by simp

text \<open>
  Claim C9. The record offset of a group into the concatenated time axis is its ordinal
  times \<open>inputs_per_chunk\<close> times \<open>items_per_file\<close>; the offsets increase strictly with the
  ordinal, and the range of records of a group ends where a later group starts or before.
\<close>

theorem chunk_offsets_disjoint:
  "0 < k \<Longrightarrow> 0 < n \<Longrightarrow>
   (\<forall>j < length (chunk_plan k xs). chunk_offset n (chunk_plan k xs) j = j * k * n) \<and>
   (\<forall>i j. i < j \<and> j < length (chunk_plan k xs) \<longrightarrow>
      chunk_offset n (chunk_plan k xs) i < chunk_offset n (chunk_plan k xs) j \<and>
      chunk_offset n (chunk_plan k xs) i + chunk_records n (chunk_plan k xs) i
        \<le> chunk_offset n (chunk_plan k xs) j)"
proof (intro conjI allI impI)
  fix j assume "0 < k" "j < length (chunk_plan k xs)"
  then show "chunk_offset n (chunk_plan k xs) j = j * k * n" by (rule chunk_offset_plan)
next
  fix i j assume k: "0 < k" and n: "0 < n" and ij: "i < j \<and> j < length (chunk_plan k xs)"
  then have oi: "chunk_offset n (chunk_plan k xs) i = i * k * n"
    and oj: "chunk_offset n (chunk_plan k xs) j = j * k * n"
    by (simp_all add: chunk_offset_plan)
  have "Suc i < length (chunk_plan k xs)" using ij by simp
  then have ri: "chunk_records n (chunk_plan k xs) i = k * n"
    by (simp add: chunk_records_def full_chunk [OF k])
  have "Suc i * (k * n) \<le> j * (k * n)" using ij by (intro mult_le_mono1) simp
  then have le: "i * k * n + k * n \<le> j * k * n" by (simp add: algebra_simps)
  show "chunk_offset n (chunk_plan k xs) i < chunk_offset n (chunk_plan k xs) j"
    using ij k n by (simp add: oi oj)
  show "chunk_offset n (chunk_plan k xs) i + chunk_records n (chunk_plan k xs) i
        \<le> chunk_offset n (chunk_plan k xs) j"
    using le by (simp only: oi oj ri)
qed

theorem chunk_offsets_disjoint_witness:
  "(0::nat) < 10 \<and> (0::nat) < 1 \<and>
   chunk_offset 1 (chunk_plan 10 [0..<23::nat]) 2 = 20 \<and>
   chunk_offset 1 (chunk_plan 10 [0..<23::nat]) 1 < chunk_offset 1 (chunk_plan 10 [0..<23::nat]) 2 \<and>
   chunk_offset 1 (chunk_plan 10 [0..<23::nat]) 1 + chunk_records 1 (chunk_plan 10 [0..<23::nat]) 1
     \<le> chunk_offset 1 (chunk_plan 10 [0..<23::nat]) 2"
proof -
  have l: "length (chunk_plan 10 [0..<23::nat]) = 3" by (simp add: length_chunk_plan)
  have h1: "(0::nat) < 10" and h2: "(0::nat) < 1" by simp_all
  note t = chunk_offsets_disjoint [OF h1 h2, of "[0..<23::nat]", unfolded l]
  have "chunk_offset 1 (chunk_plan 10 [0..<23::nat]) 2 = 2 * 10 * 1"
    by (rule t [THEN conjunct1, rule_format]) simp
  moreover have "chunk_offset 1 (chunk_plan 10 [0..<23::nat]) 1 < chunk_offset 1 (chunk_plan 10 [0..<23::nat]) 2 \<and>
      chunk_offset 1 (chunk_plan 10 [0..<23::nat]) 1 + chunk_records 1 (chunk_plan 10 [0..<23::nat]) 1
        \<le> chunk_offset 1 (chunk_plan 10 [0..<23::nat]) 2"
    by (rule t [THEN conjunct2, rule_format]) simp
  ultimately show ?thesis by simp
qed
section \<open>The driver with no input\<close>





section \<open>The example frames\<close>

lemma eighths_numeral: "eighths (- (479 / 8))" "eighths (- (1439 / 8))" "eighths (1 / 4)"
  by (simp_all add: eighths_def)

lemma upt_small: "[0..<2] = [0, 1::nat]" "[0..<3] = [0, 1, 2::nat]"
  by code_simp+

lemma small_lat_axis:
  "np_linspace (Fin (- (479 / 8))) (fadd (Fin (- (479 / 8))) (fmul (Fin (1 / 4)) (of_count 2))) 2
     = [Fin (- (479 / 8)), Fin (- (477 / 8))]"
proof -
  have "np_linspace (Fin (- (479 / 8))) (fadd (Fin (- (479 / 8))) (fmul (Fin (1 / 4)) (of_count 2))) 2
     = map (\<lambda>i. Fin (- (479 / 8) + 1 / 4 * of_nat i)) [0..<2]"
    by (rule np_linspace_exact) (simp_all add: eighths_numeral)
  also have "\<dots> = [Fin (- (479 / 8)), Fin (- (477 / 8))]"
    by (simp add: upt_small)
  finally show ?thesis .
qed

lemma small_lon_axis:
  "np_linspace (Fin (- (1439 / 8))) (fadd (Fin (- (1439 / 8))) (fmul (Fin (1 / 4)) (of_count 3))) 3
     = [Fin (- (1439 / 8)), Fin (- (1437 / 8)), Fin (- (1435 / 8))]"
proof -
  have "np_linspace (Fin (- (1439 / 8))) (fadd (Fin (- (1439 / 8))) (fmul (Fin (1 / 4)) (of_count 3))) 3
     = map (\<lambda>i. Fin (- (1439 / 8) + 1 / 4 * of_nat i)) [0..<3]"
    by (rule np_linspace_exact) (simp_all add: eighths_numeral)
  also have "\<dots> = [Fin (- (1439 / 8)), Fin (- (1437 / 8)), Fin (- (1435 / 8))]"
    by (simp add: upt_small)
  finally show ?thesis .
qed

lemma small_round:
  "py_round (Fin (1 / 4)) 3 = Fin (1 / 4)"
  "py_round (Fin (- (479 / 8))) 3 = Fin (- (479 / 8))"
  "py_round (Fin (- (1439 / 8))) 3 = Fin (- (1439 / 8))"
  by (rule py_round_eighths, simp add: eighths_numeral, simp)+

lemma small_frame_result: "add_latlon_coords small_frame = Inr small_result"
  by (simp add: add_latlon_coords_def small_frame_def small_result_def quarter_degree_def
      masked_field_def float_attr_def getitem_def bind_error_def py_len_def Let_def
      small_round small_lat_axis small_lon_axis rename_def rename_var_def dict_get_def dict_of_items_def
      assign_coord_def copy_attrs_def getattr_def)




lemma masked_frame_result: "add_latlon_coords masked_frame = Inr masked_result"
  by (simp add: add_latlon_coords_def masked_frame_def masked_result_def small_frame_def
      small_result_def quarter_degree_def
      masked_field_def float_attr_def getitem_def bind_error_def py_len_def Let_def
      small_round small_lat_axis small_lon_axis rename_def rename_var_def dict_get_def
      dict_of_items_def assign_coord_def copy_attrs_def getattr_def)









lemma global_frame_ok: "lis_frame global_frame"
  by (simp add: lis_frame_def global_frame_def py_len_def)

lemma global_frame_attrs:
  "map_of (attrs global_frame) ''DX'' = Some (Num (Fin (1 / 4)))"
  "map_of (attrs global_frame) ''DY'' = Some (Num (Fin (1 / 4)))"
  "map_of (attrs global_frame) ''SOUTH_WEST_CORNER_LAT'' = Some (Num (Fin (- (479 / 8))))"
  "map_of (attrs global_frame) ''SOUTH_WEST_CORNER_LON'' = Some (Num (Fin (- (1439 / 8))))"
  by (simp_all add: global_frame_def quarter_degree_def)

lemma global_frame_len:
  "py_len global_frame ''east_west'' = Inr 1440" "py_len global_frame ''north_south'' = Inr 600"
  by (simp_all add: global_frame_def py_len_def)

section \<open>The grid reconstructor\<close>




lemma quarter_degree_axes:
  assumes wf: "lis_frame ds"
    and a: "map_of (attrs ds) ''DX'' = Some (Num (Fin (1 / 4)))"
      "map_of (attrs ds) ''DY'' = Some (Num (Fin (1 / 4)))"
      "map_of (attrs ds) ''SOUTH_WEST_CORNER_LAT'' = Some (Num (Fin (- (479 / 8))))"
      "map_of (attrs ds) ''SOUTH_WEST_CORNER_LON'' = Some (Num (Fin (- (1439 / 8))))"
    and l: "py_len ds ''east_west'' = Inr 1440" "py_len ds ''north_south'' = Inr 600"
  shows "axis_at (add_latlon_coords ds) ''lon'' 0 = Some (Fin (- (1439 / 8)))"
    and "axis_at (add_latlon_coords ds) ''lon'' 1439 = Some (Fin (1439 / 8))"
    and "axis_at (add_latlon_coords ds) ''lat'' 0 = Some (Fin (- (479 / 8)))"
    and "axis_at (add_latlon_coords ds) ''lat'' 599 = Some (Fin (719 / 8))"
proof -
  have f: "float_attr (attrs ds) ''DX'' = Inr (Fin (1 / 4))"
    "float_attr (attrs ds) ''DY'' = Inr (Fin (1 / 4))"
    "float_attr (attrs ds) ''SOUTH_WEST_CORNER_LAT'' = Inr (Fin (- (479 / 8)))"
    "float_attr (attrs ds) ''SOUTH_WEST_CORNER_LON'' = Inr (Fin (- (1439 / 8)))"
    using a by (simp_all add: float_attr_def getitem_def bind_error_def)
  note ax = axis_at_add [OF wf f l]
  have lon: "linspace_elem (Fin (- (1439 / 8)))
      (fadd (Fin (- (1439 / 8))) (fmul (Fin (1 / 4)) (of_count 1440))) 1440 i
      = Fin (- (1439 / 8) + 1 / 4 * of_nat i)" if "i < 1440" for i
    by (rule linspace_elem_exact) (use that in \<open>simp_all add: eighths_numeral\<close>)
  have lat: "linspace_elem (Fin (- (479 / 8)))
      (fadd (Fin (- (479 / 8))) (fmul (Fin (1 / 4)) (of_count 600))) 600 i
      = Fin (- (479 / 8) + 1 / 4 * of_nat i)" if "i < 600" for i
    by (rule linspace_elem_exact) (use that in \<open>simp_all add: eighths_numeral\<close>)
  show "axis_at (add_latlon_coords ds) ''lon'' 0 = Some (Fin (- (1439 / 8)))"
    using lon [of 0] by (simp add: ax(2) small_round)
  show "axis_at (add_latlon_coords ds) ''lon'' 1439 = Some (Fin (1439 / 8))"
    using lon [of 1439] by (simp add: ax(2) small_round)
  show "axis_at (add_latlon_coords ds) ''lat'' 0 = Some (Fin (- (479 / 8)))"
    using lat [of 0] by (simp add: ax(1) small_round)
  show "axis_at (add_latlon_coords ds) ''lat'' 599 = Some (Fin (719 / 8))"
    using lat [of 599] by (simp add: ax(1) small_round)
qed

text \<open>
  Claim C2, as the code has it. For the grid \<open>DX = DY = 0.25\<close> with the corner at
  \<open>(-59.875, -179.875)\<close>, 1440 columns and 600 rows: \<open>lon[0] = -179.875\<close>, \<open>lon[1439] =
  179.875\<close>, \<open>lat[0] = -59.875\<close> and \<open>lat[599] = 89.875\<close>.
\<close>

theorem quarter_degree_scenario:
  assumes "lis_frame ds"
    and "map_of (attrs ds) ''DX'' = Some (Num (Fin (1 / 4)))"
      "map_of (attrs ds) ''DY'' = Some (Num (Fin (1 / 4)))"
      "map_of (attrs ds) ''SOUTH_WEST_CORNER_LAT'' = Some (Num (Fin (- (479 / 8))))"
      "map_of (attrs ds) ''SOUTH_WEST_CORNER_LON'' = Some (Num (Fin (- (1439 / 8))))"
    and "py_len ds ''east_west'' = Inr 1440" "py_len ds ''north_south'' = Inr 600"
  shows "axis_at (add_latlon_coords ds) ''lon'' 0 = Some (Fin (- (1439 / 8))) \<and>
         axis_at (add_latlon_coords ds) ''lon'' 1439 = Some (Fin (1439 / 8)) \<and>
         axis_at (add_latlon_coords ds) ''lat'' 0 = Some (Fin (- (479 / 8))) \<and>
         axis_at (add_latlon_coords ds) ''lat'' 599 = Some (Fin (719 / 8))"
  using quarter_degree_axes [OF assms] by simp

text \<open>The global frame meets the hypotheses.\<close>

theorem quarter_degree_scenario_witness:
  "lis_frame global_frame \<and>
   map_of (attrs global_frame) ''DX'' = Some (Num (Fin (1 / 4))) \<and>
   py_len global_frame ''east_west'' = Inr 1440 \<and> py_len global_frame ''north_south'' = Inr 600 \<and>
   axis_at (add_latlon_coords global_frame) ''lon'' 0 = Some (Fin (- (1439 / 8))) \<and>
   axis_at (add_latlon_coords global_frame) ''lon'' 1439 = Some (Fin (1439 / 8)) \<and>
   axis_at (add_latlon_coords global_frame) ''lat'' 0 = Some (Fin (- (479 / 8))) \<and>
   axis_at (add_latlon_coords global_frame) ''lat'' 599 = Some (Fin (719 / 8))"
  using quarter_degree_scenario [OF global_frame_ok global_frame_attrs global_frame_len]
    global_frame_ok global_frame_attrs global_frame_len
  by simp

text \<open>
  Claim C2 as stated fails: on the global frame \<open>lon[1439]\<close> is \<open>179.875\<close>, not \<open>179.625\<close>, and
  \<open>lat[599]\<close> is \<open>89.875\<close>, not \<open>89.625\<close>.
\<close>

theorem quarter_degree_scenario_counterexample:
  "axis_at (add_latlon_coords global_frame) ''lon'' 1439 = Some (Fin (1439 / 8)) \<and>
   axis_at (add_latlon_coords global_frame) ''lon'' 1439 \<noteq> Some (Fin (1437 / 8)) \<and>
   axis_at (add_latlon_coords global_frame) ''lat'' 599 = Some (Fin (719 / 8)) \<and>
   axis_at (add_latlon_coords global_frame) ''lat'' 599 \<noteq> Some (Fin (717 / 8))"
  using quarter_degree_axes [OF global_frame_ok global_frame_attrs global_frame_len]
  by simp








text \<open>
  Claim C10. Two frames that agree on the four grid attributes and on the lengths of
  \<open>north_south\<close> and \<open>east_west\<close> get the same \<open>lat\<close> and \<open>lon\<close> axes, whatever their
  variables hold.
\<close>

theorem axes_depend_on_grid_only:
  assumes same: "\<forall>k \<in> set grid_keys. map_of (attrs d1) k = map_of (attrs d2) k"
    and len: "py_len d1 ''north_south'' = py_len d2 ''north_south''"
      "py_len d1 ''east_west'' = py_len d2 ''east_west''"
    and ok: "add_latlon_coords d1 = Inr r1" "add_latlon_coords d2 = Inr r2"
  shows "values_of r1 ''lat'' = values_of r2 ''lat'' \<and> values_of r1 ''lon'' = values_of r2 ''lon''"
proof -
  from ok(1) obtain dx0 dy0 lat0 lon0 ew ns where
    a: "float_attr (attrs d1) ''DX'' = Inr dx0" "float_attr (attrs d1) ''DY'' = Inr dy0"
      "float_attr (attrs d1) ''SOUTH_WEST_CORNER_LAT'' = Inr lat0"
      "float_attr (attrs d1) ''SOUTH_WEST_CORNER_LON'' = Inr lon0"
    and l: "py_len d1 ''east_west'' = Inr ew" "py_len d1 ''north_south'' = Inr ns"
    by (elim add_latlon_coords_Inr)
  have b: "float_attr (attrs d2) ''DX'' = Inr dx0" "float_attr (attrs d2) ''DY'' = Inr dy0"
      "float_attr (attrs d2) ''SOUTH_WEST_CORNER_LAT'' = Inr lat0"
      "float_attr (attrs d2) ''SOUTH_WEST_CORNER_LON'' = Inr lon0"
    using a same by (simp_all add: grid_keys_def float_attr_def getitem_def)
  have m: "py_len d2 ''east_west'' = Inr ew" "py_len d2 ''north_south'' = Inr ns"
    using l len by simp_all
  show ?thesis
    by (simp add: add_latlon_coords_axes [OF ok(1) a l] add_latlon_coords_axes [OF ok(2) b m])
qed

text \<open>The small frame and its fully masked copy get the same axes.\<close>

theorem axes_depend_on_grid_only_witness:
  "py_len small_frame ''north_south'' = py_len masked_frame ''north_south'' \<and>
   py_len small_frame ''east_west'' = py_len masked_frame ''east_west'' \<and>
   add_latlon_coords small_frame = Inr small_result \<and>
   add_latlon_coords masked_frame = Inr masked_result \<and>
   values_of small_frame ''lat'' \<noteq> values_of masked_frame ''lat'' \<and>
   values_of small_result ''lat'' = values_of masked_result ''lat'' \<and>
   values_of small_result ''lon'' = values_of masked_result ''lon''"
proof -
  have s: "\<forall>k \<in> set grid_keys. map_of (attrs small_frame) k = map_of (attrs masked_frame) k"
    by (simp add: masked_frame_def)
  have l: "py_len small_frame ''north_south'' = py_len masked_frame ''north_south''"
    "py_len small_frame ''east_west'' = py_len masked_frame ''east_west''"
    by (simp_all add: masked_frame_def small_frame_def py_len_def)
  have d: "values_of small_frame ''lat'' \<noteq> values_of masked_frame ''lat''"
    by (simp add: values_of_def masked_frame_def small_frame_def masked_field_def)
  from axes_depend_on_grid_only [OF s l small_frame_result masked_frame_result]
  show ?thesis using l d small_frame_result masked_frame_result by simp
qed

end
